theory Spec2Isabelle
  imports Complex_Main "HOL-Library.Word"
begin

section \<open>Smart irrigation controller (MainProject\_Menu.c, init380.c)\<close>

text \<open>
  The target is an 8051 core compiled with a 16-bit \<open>int\<close>: \<open>int\<close> globals are
  16-bit two's complement words compared with the signed order, \<open>unsigned int\<close>
  is a 16-bit word with wrap-around arithmetic and the unsigned order, \<open>U8\<close> is
  an 8-bit word, \<open>bit\<close> and \<open>sbit\<close> are booleans. The LM75 temperature is a
  \<open>float\<close> obtained from a 9-bit reading; it is a finite value and is compared
  with an integer threshold, so it is modelled by the real number it denotes.
\<close>

type_synonym s16 = "16 word"
type_synonym u16 = "16 word"
type_synonym u8 = "8 word"

subsection \<open>Threshold constants (lines 43--45)\<close>

definition SOIL_THRESHOLD :: s16 where
  "SOIL_THRESHOLD = 40"

definition RAIN_THRESHOLD :: s16 where
  "RAIN_THRESHOLD = 80"

definition LIGHT_THRESHOLD :: s16 where
  "LIGHT_THRESHOLD = 70"

subsection \<open>Global variables (lines 50--61) and the actuators\<close>

text \<open>
  The globals of the translation unit, followed by the local \<open>screen\<close> of
  \<open>main\<close> (it lives across the iterations of the main loop), the relay pin
  \<open>Relay\<close> (P0.2, read at line 176) and the pulse width last handed to
  \<open>pulse\<close>.
\<close>

record sys =
  temp :: real
  TEMP_THRESHOLD :: s16
  directionUp :: s16
  angle :: u16
  hour :: s16
  minute :: s16
  second :: s16
  rain :: s16
  soil :: s16
  light :: s16
  runFlag :: bool
  screen :: u8
  Relay :: bool
  servo :: u16

text \<open>
  The state in which the main loop is entered. Globals with an initialiser take
  it (\<open>TEMP_THRESHOLD = 27\<close>, \<open>angle = 1500\<close>, \<open>runFlag = 0\<close>); the
  others (\<open>directionUp\<close> among them, line 52) have static storage duration and no
  initialiser, so they start at zero. \<open>Init_Device\<close> clears P0.2 (init380.c
  line 51), so the relay starts off; \<open>screen\<close> is initialised to 0 at line 76.
  No pulse width has been handed to \<open>pulse\<close> yet; the field starts at 0.
\<close>

definition init_state :: sys where
  "init_state =
    \<lparr> temp = 0, TEMP_THRESHOLD = 27, directionUp = 0, angle = 1500,
      hour = 0, minute = 0, second = 0, rain = 0, soil = 0, light = 0,
      runFlag = False, screen = 0, Relay = False, servo = 0 \<rparr>"

text \<open>
  Modelled from the spec: \<open>Relay_On\<close>, \<open>Relay_Off\<close> and \<open>pulse\<close> are
  declared in my\_private\_header.h, which is not part of the sources. The spec's
  actuation interface is \<open>setRelay(bool)\<close> and
  \<open>setServoPulseWidth(microseconds)\<close>: the first two set the relay pin, the
  third loads the pulse width.
\<close>

definition Relay_On :: "sys \<Rightarrow> sys" where
  "Relay_On s = s\<lparr>Relay := True\<rparr>"

definition Relay_Off :: "sys \<Rightarrow> sys" where
  "Relay_Off s = s\<lparr>Relay := False\<rparr>"

definition pulse :: "u16 \<Rightarrow> sys \<Rightarrow> sys" where
  "pulse w s = s\<lparr>servo := w\<rparr>"

subsection \<open>runProject (lines 309--376)\<close>

text \<open>
  The function has five early \<open>return\<close> statements and the end of its body;
  the model returns which of them was taken together with the new state. The
  LCD output (lines 312--326) and the final delay change nothing the program
  reads back and are left out.
\<close>

datatype exit_point =
  Ret_soil | Ret_window | Ret_light | Ret_rain | Ret_temp | Ret_end

text \<open>The servo sweep of lines 361--373.\<close>

definition sweep_advance :: "sys \<Rightarrow> sys" where
  "sweep_advance s =
    (if directionUp s \<noteq> 0 then
       (let s1 = s\<lparr>angle := angle s + 30\<rparr> in
        if angle s1 \<ge> 2400 then s1\<lparr>angle := 2400, directionUp := 0\<rparr> else s1)
     else
       (let s1 = s\<lparr>angle := angle s - 30\<rparr> in
        if angle s1 \<le> 600 then s1\<lparr>angle := 600, directionUp := 1\<rparr> else s1))"

definition runProject :: "sys \<Rightarrow> exit_point \<times> sys" where
  "runProject s =
    (if soil s <s SOIL_THRESHOLD then (Ret_soil, Relay_Off s)
     else if \<not> ((4 \<le>s hour s \<and> hour s <s 8) \<or> (19 \<le>s hour s \<and> hour s <s 22))
       then (Ret_window, Relay_Off s)
     else if LIGHT_THRESHOLD \<le>s light s then (Ret_light, Relay_Off s)
     else if rain s <s RAIN_THRESHOLD then (Ret_rain, Relay_Off s)
     else if real_of_int (sint (TEMP_THRESHOLD s)) \<le> temp s then (Ret_temp, Relay_Off s)
     else
       (let s1 = sweep_advance (Relay_On s) in (Ret_end, pulse (angle s1) s1)))"

subsection \<open>The main loop (lines 90--230)\<close>

text \<open>
  What one iteration reads from the peripherals: the LM75 temperature, the three
  DS1307 registers, the three ADC channels and the button number that
  \<open>ButtonTouch\<close> returns for the touch coordinates. \<open>readTemp\<close>,
  \<open>readDS1307\<close>, \<open>ADC_IN_CHANNEL\<close> and \<open>ButtonTouch\<close> are library
  functions outside the sources; their results are the inputs of an iteration.
  The converter has 10 bits (init380.c line 16); its result is taken as an
  unsigned 16-bit value, and for results up to 1023 the scaling to a percentage
  is the same in signed arithmetic.
\<close>

record inputs =
  in_temp :: real
  in_hour :: s16
  in_minute :: s16
  in_second :: s16
  adc_light :: u16
  adc_soil :: u16
  adc_rain :: u16
  in_button :: s16

text \<open>Part (A), lines 99--112.\<close>

definition read_sensors :: "inputs \<Rightarrow> sys \<Rightarrow> sys" where
  "read_sensors i s =
    s\<lparr> temp := in_temp i,
       hour := in_hour i, minute := in_minute i, second := in_second i,
       light := (adc_light i * 10) div 102,
       soil := (adc_soil i * 10) div 102,
       rain := (adc_rain i * 10) div 102 \<rparr>"

text \<open>
  Part (D), lines 125--226: screen selection, then the sub-menu of the current
  screen. The Check sub-menu (lines 152--186) only prints. Writes to the DS1307
  and to the LCD are outside the state.
\<close>

definition select_screen :: "s16 \<Rightarrow> sys \<Rightarrow> sys" where
  "select_screen b s =
    (if b = 1 then Relay_Off (s\<lparr>screen := 1, runFlag := False\<rparr>)
     else if b = 2 then Relay_Off (s\<lparr>screen := 2, runFlag := False\<rparr>)
     else if b = 3 then s\<lparr>screen := 3, runFlag := True\<rparr>
     else s)"

definition setup_menu :: "s16 \<Rightarrow> sys \<Rightarrow> sys" where
  "setup_menu b s =
    (if b = 13 then
       (let s1 = s\<lparr>hour := hour s + 1\<rparr> in
        if 24 \<le>s hour s1 then s1\<lparr>hour := 0\<rparr> else s1)
     else if b = 14 then
       (if hour s = 0 then s\<lparr>hour := 23\<rparr> else s\<lparr>hour := hour s - 1\<rparr>)
     else if b = 15 then
       (let s1 = s\<lparr>minute := minute s + 1\<rparr> in
        if 60 \<le>s minute s1 then s1\<lparr>minute := 0\<rparr> else s1)
     else if b = 16 then
       (if minute s = 0 then s\<lparr>minute := 59\<rparr> else s\<lparr>minute := minute s - 1\<rparr>)
     else if b = 17 then
       (let s1 = s\<lparr>TEMP_THRESHOLD := TEMP_THRESHOLD s + 1\<rparr> in
        if 30 <s TEMP_THRESHOLD s1 then s1\<lparr>TEMP_THRESHOLD := 20\<rparr> else s1)
     else s)"

definition menu :: "s16 \<Rightarrow> sys \<Rightarrow> sys" where
  "menu b s =
    (if b \<noteq> 0 then
       (let s1 = select_screen b s in
        if screen s1 = 2 then setup_menu b s1 else s1)
     else s)"

text \<open>One iteration of the main loop: parts (A), (B) and (D).\<close>

definition tick :: "inputs \<Rightarrow> sys \<Rightarrow> sys" where
  "tick i s =
    (let s1 = read_sensors i s;
         s2 = (if runFlag s1 then snd (runProject s1) else s1)
     in menu (in_button i) s2)"

text \<open>
  The loop never ends; its behaviour is the sequence of states it goes through.
  \<open>main_loop\<close> runs one iteration for each element of a list of inputs.
\<close>

fun main_loop :: "inputs list \<Rightarrow> sys \<Rightarrow> sys" where
  "main_loop [] s = s"
| "main_loop (i # is) s = main_loop is (tick i s)"

text \<open>
  A step of the controller in Active mode: the sensors are refreshed and
  \<open>runProject\<close> is called. \<open>steps\<close> is a sequence of such calls.
\<close>

definition step :: "inputs \<Rightarrow> sys \<Rightarrow> sys" where
  "step i s = snd (runProject (read_sensors i s))"

fun steps :: "inputs list \<Rightarrow> sys \<Rightarrow> sys" where
  "steps [] s = s"
| "steps (i # is) s = steps is (step i s)"

subsection \<open>The conditions as the specification words them\<close>

text \<open>
  The five conditions of the specification on the values the variables denote:
  soil at least 40, hour in \<open>[4,8)\<close> or \<open>[19,22)\<close>, light below 70, rain at
  least 80, temperature below the threshold.
\<close>

definition soil_ok :: "sys \<Rightarrow> bool" where
  "soil_ok s = (40 \<le> sint (soil s))"

definition window_ok :: "sys \<Rightarrow> bool" where
  "window_ok s =
    ((4 \<le> sint (hour s) \<and> sint (hour s) < 8) \<or> (19 \<le> sint (hour s) \<and> sint (hour s) < 22))"

definition light_ok :: "sys \<Rightarrow> bool" where
  "light_ok s = (sint (light s) < 70)"

definition rain_ok :: "sys \<Rightarrow> bool" where
  "rain_ok s = (80 \<le> sint (rain s))"

definition temp_ok :: "sys \<Rightarrow> bool" where
  "temp_ok s = (temp s < real_of_int (sint (TEMP_THRESHOLD s)))"

definition conditions_met :: "sys \<Rightarrow> bool" where
  "conditions_met s = (soil_ok s \<and> window_ok s \<and> light_ok s \<and> rain_ok s \<and> temp_ok s)"

subsection \<open>Auxiliary notions for the statements\<close>

text \<open>The domain of the pulse width: the closed interval from 600 to 2400.\<close>

definition in_range :: "sys \<Rightarrow> bool" where
  "in_range s = (600 \<le> angle s \<and> angle s \<le> 2400)"

text \<open>
  A concrete state in which all five conditions hold: the entry state with
  soil 40, hour 5, light 69, rain 80 and 26.9 degrees against the threshold 27.
\<close>

definition scenario :: sys where
  "scenario = init_state\<lparr>soil := 40, hour := 5, light := 69, rain := 80, temp := 26.9\<rparr>"

text \<open>
  Inputs of an iteration under which the five conditions hold at threshold 27:
  the ADC readings scale to light 69, soil 40 and rain 80; no button is pressed.
\<close>

definition good_inputs :: inputs where
  "good_inputs =
    \<lparr> in_temp = 26.9, in_hour = 5, in_minute = 0, in_second = 0,
      adc_light = 704, adc_soil = 408, adc_rain = 816, in_button = 0 \<rparr>"

text \<open>The direction flag has changed its truth value between two states.\<close>

definition flipped :: "sys \<Rightarrow> sys \<Rightarrow> bool" where
  "flipped a b = ((directionUp a \<noteq> 0) \<noteq> (directionUp b \<noteq> 0))"

text \<open>
  The invariant of the sweep: the pulse width is a multiple of 30 in
  \<open>[600,2400]\<close>, below 2400 while the direction is up and above 600 while it
  is down.
\<close>

definition sweep_inv :: "sys \<Rightarrow> bool" where
  "sweep_inv s =
    (600 \<le> uint (angle s) \<and> uint (angle s) \<le> 2400 \<and> uint (angle s) mod 30 = 0
     \<and> ((directionUp s \<noteq> 0 \<and> uint (angle s) < 2400) \<or> (directionUp s = 0 \<and> 600 < uint (angle s))))"

text \<open>The pulse width is a multiple of 30 in \<open>[600,2400]\<close>.\<close>

definition on_grid :: "sys \<Rightarrow> bool" where
  "on_grid s = (600 \<le> uint (angle s) \<and> uint (angle s) \<le> 2400 \<and> uint (angle s) mod 30 = 0)"

text \<open>
  A sweep step from \<open>s\<close> leaves the plain stepped value, the width plus or minus
  30 without wrap-around: the clamping assignments of lines 364 and 370, where
  they run, store the value the variable already has.
\<close>

definition clamp_idle :: "sys \<Rightarrow> bool" where
  "clamp_idle s =
    (uint (angle (sweep_advance s)) =
      (if directionUp s \<noteq> 0 then uint (angle s) + 30 else uint (angle s) - 30))"

text \<open>
  The state after the first iteration of the main loop when the Project button
  is pressed in it.
\<close>

definition project_pressed :: sys where
  "project_pressed = tick (good_inputs\<lparr>in_button := 3\<rparr>) init_state"

section \<open>The irrigation decision\<close>

lemmas ok_defs = soil_ok_def window_ok_def light_ok_def rain_ok_def temp_ok_def

lemma soil_cmp: "(soil s <s SOIL_THRESHOLD) = (\<not> soil_ok s)"
  by (simp add: soil_ok_def SOIL_THRESHOLD_def word_sless_alt not_le)

lemma window_cmp:
  "((4 \<le>s hour s \<and> hour s <s 8) \<or> (19 \<le>s hour s \<and> hour s <s 22)) = window_ok s"
  by (simp add: window_ok_def word_sless_alt word_sle_eq)

lemma light_cmp: "(LIGHT_THRESHOLD \<le>s light s) = (\<not> light_ok s)"
  by (simp add: light_ok_def LIGHT_THRESHOLD_def word_sle_eq not_less)

lemma rain_cmp: "(rain s <s RAIN_THRESHOLD) = (\<not> rain_ok s)"
  by (simp add: rain_ok_def RAIN_THRESHOLD_def word_sless_alt not_le)

lemma temp_cmp: "(real_of_int (sint (TEMP_THRESHOLD s)) \<le> temp s) = (\<not> temp_ok s)"
  by (simp add: temp_ok_def not_less)

lemma runProject_alt:
  "runProject s =
    (if \<not> soil_ok s then (Ret_soil, Relay_Off s)
     else if \<not> window_ok s then (Ret_window, Relay_Off s)
     else if \<not> light_ok s then (Ret_light, Relay_Off s)
     else if \<not> rain_ok s then (Ret_rain, Relay_Off s)
     else if \<not> temp_ok s then (Ret_temp, Relay_Off s)
     else (Ret_end, pulse (angle (sweep_advance (Relay_On s))) (sweep_advance (Relay_On s))))"
  unfolding runProject_def soil_cmp window_cmp light_cmp rain_cmp temp_cmp Let_def
  by simp

lemma Relay_sweep_advance [simp]: "Relay (sweep_advance s) = Relay s"
  by (simp add: sweep_advance_def Let_def)

lemma runProject_met:
  "conditions_met s \<Longrightarrow>
    runProject s =
      (Ret_end, pulse (angle (sweep_advance (Relay_On s))) (sweep_advance (Relay_On s)))"
  by (simp add: runProject_alt conditions_met_def)

lemma runProject_not_met:
  "\<not> conditions_met s \<Longrightarrow>
    snd (runProject s) = Relay_Off s \<and> fst (runProject s) \<noteq> Ret_end"
  by (auto simp: runProject_alt conditions_met_def)

lemma scenario_met: "conditions_met scenario"
  by (simp add: conditions_met_def ok_defs scenario_def init_state_def)

text \<open>
  C1. The pump is switched on exactly when the five conditions hold: soil at
  least 40, hour in an allowed window, light below 70, rain at least 80 (a high
  reading means dry), temperature below the threshold. The conditions are
  tested in the order soil, window, light, rain, temperature: the return taken
  is the one of the first condition that fails, whatever the later ones are,
  and every early return leaves the state as it was with the relay off.
\<close>

theorem runProject_decision:
  "Relay (snd (runProject s)) = conditions_met s
   \<and> (fst (runProject s) = Ret_soil) = (\<not> soil_ok s)
   \<and> (fst (runProject s) = Ret_window) = (soil_ok s \<and> \<not> window_ok s)
   \<and> (fst (runProject s) = Ret_light) = (soil_ok s \<and> window_ok s \<and> \<not> light_ok s)
   \<and> (fst (runProject s) = Ret_rain) =
        (soil_ok s \<and> window_ok s \<and> light_ok s \<and> \<not> rain_ok s)
   \<and> (fst (runProject s) = Ret_temp) =
        (soil_ok s \<and> window_ok s \<and> light_ok s \<and> rain_ok s \<and> \<not> temp_ok s)
   \<and> (fst (runProject s) = Ret_end) = conditions_met s
   \<and> (fst (runProject s) = Ret_end \<or> snd (runProject s) = s\<lparr>Relay := False\<rparr>)"
  by (simp add: runProject_alt conditions_met_def Relay_Off_def Relay_On_def pulse_def)

theorem runProject_decision_witness:
  "conditions_met scenario
   \<and> Relay (snd (runProject scenario))
   \<and> fst (runProject scenario) = Ret_end
   \<and> fst (runProject (scenario\<lparr>soil := 39, hour := 3\<rparr>)) = Ret_soil
   \<and> fst (runProject (scenario\<lparr>hour := 8, light := 70\<rparr>)) = Ret_window"
  using runProject_decision [of scenario]
    runProject_decision [of "scenario\<lparr>soil := 39, hour := 3\<rparr>"]
    runProject_decision [of "scenario\<lparr>hour := 8, light := 70\<rparr>"]
  by (simp add: conditions_met_def ok_defs scenario_def init_state_def)

text \<open>
  C4. When one of the five conditions fails, \<open>runProject\<close> returns early with
  the relay off and changes nothing else: the pulse width and the direction
  flag are the ones it found.
\<close>

theorem runProject_condition_fails:
  assumes "\<not> conditions_met s"
  shows "fst (runProject s) \<noteq> Ret_end
    \<and> \<not> Relay (snd (runProject s))
    \<and> angle (snd (runProject s)) = angle s
    \<and> directionUp (snd (runProject s)) = directionUp s
    \<and> snd (runProject s) = s\<lparr>Relay := False\<rparr>"
  using runProject_not_met [OF assms] by (simp add: Relay_Off_def)

theorem runProject_condition_fails_witness:
  "\<not> conditions_met (scenario\<lparr>rain := 79\<rparr>)
   \<and> \<not> Relay (snd (runProject (scenario\<lparr>rain := 79\<rparr>)))
   \<and> angle (snd (runProject (scenario\<lparr>rain := 79\<rparr>))) = 1500
   \<and> directionUp (snd (runProject (scenario\<lparr>rain := 79\<rparr>))) = 0"
proof -
  have n: "\<not> conditions_met (scenario\<lparr>rain := 79\<rparr>)"
    by (simp add: conditions_met_def ok_defs scenario_def init_state_def)
  from runProject_condition_fails [OF n] n show ?thesis
    by (simp add: scenario_def init_state_def)
qed

text \<open>
  C5. The window test reads the hour only: with the soil condition passed, the
  window return is taken exactly when the hour is neither in \<open>[4,8)\<close> nor in
  \<open>[19,22)\<close>; changing minute and second changes neither the return taken nor
  anything else of the result. Hours 4 and 19 pass the test, hours 8, 22, 3 and
  23 fail it.
\<close>

theorem window_test:
  assumes "soil_ok s"
  shows "(fst (runProject s) \<noteq> Ret_window) =
      ((4 \<le> sint (hour s) \<and> sint (hour s) < 8) \<or> (19 \<le> sint (hour s) \<and> sint (hour s) < 22))
    \<and> fst (runProject (s\<lparr>minute := m, second := c\<rparr>)) = fst (runProject s)
    \<and> snd (runProject (s\<lparr>minute := m, second := c\<rparr>)) =
        (snd (runProject s))\<lparr>minute := m, second := c\<rparr>
    \<and> fst (runProject (s\<lparr>hour := 4\<rparr>)) \<noteq> Ret_window
    \<and> fst (runProject (s\<lparr>hour := 19\<rparr>)) \<noteq> Ret_window
    \<and> fst (runProject (s\<lparr>hour := 8\<rparr>)) = Ret_window
    \<and> fst (runProject (s\<lparr>hour := 22\<rparr>)) = Ret_window
    \<and> fst (runProject (s\<lparr>hour := 3\<rparr>)) = Ret_window
    \<and> fst (runProject (s\<lparr>hour := 23\<rparr>)) = Ret_window"
proof -
  have 1: "(fst (runProject s) \<noteq> Ret_window) =
      ((4 \<le> sint (hour s) \<and> sint (hour s) < 8) \<or> (19 \<le> sint (hour s) \<and> sint (hour s) < 22))"
    using assms by (simp add: runProject_alt window_ok_def)
  have 2: "fst (runProject (s\<lparr>minute := m, second := c\<rparr>)) = fst (runProject s)"
    by (simp add: runProject_alt ok_defs)
  have 3: "snd (runProject (s\<lparr>minute := m, second := c\<rparr>)) =
      (snd (runProject s))\<lparr>minute := m, second := c\<rparr>"
    by (simp add: runProject_alt ok_defs Relay_Off_def Relay_On_def pulse_def
        sweep_advance_def Let_def)
  have 4: "fst (runProject (s\<lparr>hour := 4\<rparr>)) \<noteq> Ret_window"
    and 5: "fst (runProject (s\<lparr>hour := 19\<rparr>)) \<noteq> Ret_window"
    and 6: "fst (runProject (s\<lparr>hour := 8\<rparr>)) = Ret_window"
    and 7: "fst (runProject (s\<lparr>hour := 22\<rparr>)) = Ret_window"
    and 8: "fst (runProject (s\<lparr>hour := 3\<rparr>)) = Ret_window"
    and 9: "fst (runProject (s\<lparr>hour := 23\<rparr>)) = Ret_window"
    using assms by (simp_all add: runProject_alt ok_defs)
  from 1 2 3 4 5 6 7 8 9 show ?thesis by blast
qed

theorem window_test_witness:
  "soil_ok scenario
   \<and> fst (runProject scenario) \<noteq> Ret_window
   \<and> fst (runProject (scenario\<lparr>minute := 59, second := 59\<rparr>)) = Ret_end
   \<and> fst (runProject (scenario\<lparr>hour := 8\<rparr>)) = Ret_window"
proof -
  have h: "soil_ok scenario"
    by (simp add: soil_ok_def scenario_def init_state_def)
  have e: "fst (runProject scenario) = Ret_end"
    by (simp add: runProject_met [OF scenario_met])
  from window_test [OF h, of 59 59] h e show ?thesis
    by simp
qed

section \<open>The servo sweep\<close>

subsection \<open>One step\<close>

lemma in_range_uint: "in_range s = (600 \<le> uint (angle s) \<and> uint (angle s) \<le> 2400)"
  by (simp add: in_range_def word_le_def)

lemma up_uint: "uint (a::u16) \<le> 2400 \<Longrightarrow> uint (a + 30) = uint a + 30"
  by (simp add: uint_word_ariths)

lemma down_uint:
  assumes "600 \<le> uint (a::u16)"
  shows "uint (a - 30) = uint a - 30"
proof -
  have "uint a < 65536" using uint_bounded [of a] by simp
  with assms show ?thesis by (simp add: uint_word_ariths)
qed

lemma sweep_up:
  assumes "in_range s" "directionUp s \<noteq> 0"
  shows "sweep_advance s =
    (if 2400 \<le> uint (angle s) + 30 then s\<lparr>angle := 2400, directionUp := 0\<rparr>
     else s\<lparr>angle := angle s + 30\<rparr>)"
  using assms
  by (simp add: sweep_advance_def Let_def in_range_uint word_le_def up_uint)

lemma sweep_down:
  assumes "in_range s" "directionUp s = 0"
  shows "sweep_advance s =
    (if uint (angle s) - 30 \<le> 600 then s\<lparr>angle := 600, directionUp := 1\<rparr>
     else s\<lparr>angle := angle s - 30\<rparr>)"
  using assms
  by (simp add: sweep_advance_def Let_def in_range_uint word_le_def down_uint)

lemma sweep_in_range: "in_range s \<Longrightarrow> in_range (sweep_advance s)"
  by (cases "directionUp s = 0")
     (auto simp: sweep_up sweep_down in_range_uint up_uint down_uint)

lemma read_sensors_frame [simp]:
  "angle (read_sensors i s) = angle s"
  "directionUp (read_sensors i s) = directionUp s"
  "TEMP_THRESHOLD (read_sensors i s) = TEMP_THRESHOLD s"
  "runFlag (read_sensors i s) = runFlag s"
  "screen (read_sensors i s) = screen s"
  "Relay (read_sensors i s) = Relay s"
  "servo (read_sensors i s) = servo s"
  by (simp_all add: read_sensors_def)

lemma in_range_read_sensors [simp]: "in_range (read_sensors i s) = in_range s"
  by (simp add: in_range_def)

lemma in_range_Relay_On [simp]: "in_range (Relay_On s) = in_range s"
  by (simp add: in_range_def Relay_On_def)

lemma in_range_Relay_Off [simp]: "in_range (Relay_Off s) = in_range s"
  by (simp add: in_range_def Relay_Off_def)

lemma in_range_pulse [simp]: "in_range (pulse w s) = in_range s"
  by (simp add: in_range_def pulse_def)

lemma Relay_On_frame [simp]:
  "directionUp (Relay_On s) = directionUp s"
  "angle (Relay_On s) = angle s"
  "TEMP_THRESHOLD (Relay_On s) = TEMP_THRESHOLD s"
  by (simp_all add: Relay_On_def)

lemma Relay_Off_frame [simp]:
  "directionUp (Relay_Off s) = directionUp s"
  "angle (Relay_Off s) = angle s"
  "TEMP_THRESHOLD (Relay_Off s) = TEMP_THRESHOLD s"
  by (simp_all add: Relay_Off_def)

lemma pulse_frame [simp]:
  "directionUp (pulse w s) = directionUp s"
  "angle (pulse w s) = angle s"
  "TEMP_THRESHOLD (pulse w s) = TEMP_THRESHOLD s"
  by (simp_all add: pulse_def)

lemma sweep_advance_TEMP [simp]: "TEMP_THRESHOLD (sweep_advance s) = TEMP_THRESHOLD s"
  by (simp add: sweep_advance_def Let_def)

lemma runProject_in_range: "in_range s \<Longrightarrow> in_range (snd (runProject s))"
  by (cases "conditions_met s") (simp_all add: runProject_met runProject_not_met sweep_in_range)

lemma runProject_TEMP [simp]: "TEMP_THRESHOLD (snd (runProject s)) = TEMP_THRESHOLD s"
  by (cases "conditions_met s") (simp_all add: runProject_met runProject_not_met)

lemma step_in_range: "in_range s \<Longrightarrow> in_range (step i s)"
  by (simp add: step_def runProject_in_range)

lemma step_TEMP [simp]: "TEMP_THRESHOLD (step i s) = TEMP_THRESHOLD s"
  by (simp add: step_def)

lemma steps_in_range: "in_range s \<Longrightarrow> in_range (steps is s)"
  by (induction "is" arbitrary: s) (simp_all add: step_in_range)

lemma steps_TEMP [simp]: "TEMP_THRESHOLD (steps is s) = TEMP_THRESHOLD s"
  by (induction "is" arbitrary: s) simp_all

lemma steps_append: "steps (is @ js) s = steps js (steps is s)"
  by (induction "is" arbitrary: s) simp_all

lemma steps_take_Suc:
  "n < length is \<Longrightarrow> steps (take (Suc n) is) s = step (is ! n) (steps (take n is) s)"
  by (simp add: take_Suc_conv_app_nth steps_append)

lemma conditions_met_read_sensors:
  "TEMP_THRESHOLD s' = TEMP_THRESHOLD s \<Longrightarrow>
    conditions_met (read_sensors i s') = conditions_met (read_sensors i s)"
  by (simp add: conditions_met_def ok_defs read_sensors_def)

lemma step_met:
  assumes "conditions_met (read_sensors i s)"
  shows "angle (step i s) = angle (sweep_advance s)"
    and "directionUp (step i s) = directionUp (sweep_advance s)"
  using assms
  by (simp_all add: step_def runProject_met sweep_advance_def Let_def Relay_On_def read_sensors_def)

lemma good_inputs_met:
  "conditions_met (read_sensors good_inputs s) = temp_ok (s\<lparr>temp := 26.9\<rparr>)"
  by (simp add: conditions_met_def ok_defs read_sensors_def good_inputs_def)

lemma flip_iff:
  assumes "in_range a"
  shows "((directionUp (sweep_advance a) = 0) \<noteq> (directionUp a = 0)) =
      (if directionUp a \<noteq> 0 then 2400 \<le> uint (angle a) + 30
       else uint (angle a) - 30 \<le> 600)"
  using assms by (cases "directionUp a = 0") (simp_all add: sweep_up sweep_down)

lemma steps_up_run:
  assumes "directionUp s \<noteq> 0" and "600 \<le> uint (angle s)"
    and "uint (angle s) + 30 * int (length is) < 2400"
    and "\<forall>i\<in>set is. conditions_met (read_sensors i s)"
  shows "uint (angle (steps is s)) = uint (angle s) + 30 * int (length is)
    \<and> directionUp (steps is s) = directionUp s"
  using assms
proof (induction "is" arbitrary: s)
  case Nil
  then show ?case by simp
next
  case (Cons i "is")
  have r: "in_range s" using Cons.prems by (simp add: in_range_uint)
  have m: "conditions_met (read_sensors i s)" using Cons.prems by simp
  have lt: "\<not> 2400 \<le> uint (angle s) + 30" using Cons.prems by simp
  have a: "angle (step i s) = angle s + 30" and d: "directionUp (step i s) = directionUp s"
    using Cons.prems(1) lt by (simp_all add: step_met [OF m] sweep_up [OF r])
  have u: "uint (angle (step i s)) = uint (angle s) + 30"
    using r by (simp add: a up_uint in_range_uint)
  have ms: "\<forall>j\<in>set is. conditions_met (read_sensors j (step i s))"
    using Cons.prems(4) conditions_met_read_sensors [of "step i s" s] by simp
  have "uint (angle (steps is (step i s))) = uint (angle (step i s)) + 30 * int (length is)
    \<and> directionUp (steps is (step i s)) = directionUp (step i s)"
    using Cons.prems u d ms by (intro Cons.IH) simp_all
  then show ?case by (simp add: u d)
qed

lemma flip_at_bound:
  assumes "in_range a"
  shows "((directionUp (sweep_advance a) = 0) \<noteq> (directionUp a = 0)) =
      (if directionUp a \<noteq> 0 then angle (sweep_advance a) = 2400
       else angle (sweep_advance a) = 600)"
proof (cases "directionUp a = 0")
  case True
  then show ?thesis
    using assms by (simp add: sweep_down word_uint_eq_iff down_uint in_range_uint)
next
  case False
  then show ?thesis
    using assms by (simp add: sweep_up word_uint_eq_iff up_uint in_range_uint)
qed

text \<open>
  C3. When the five conditions hold and the pulse width is in its domain
  \<open>[600,2400]\<close>, \<open>runProject\<close> runs to its end, switches the relay on and moves
  the pulse width by one step of 30 in the current direction, stopping at the
  bound of that direction, where the direction flag flips. The new width is
  handed to \<open>pulse\<close>; nothing else of the state changes.
\<close>

theorem runProject_all_met:
  assumes "conditions_met s" and "600 \<le> angle s" and "angle s \<le> 2400"
  shows "fst (runProject s) = Ret_end
    \<and> Relay (snd (runProject s))
    \<and> uint (angle (snd (runProject s))) =
        (if directionUp s \<noteq> 0 then min 2400 (uint (angle s) + 30)
         else max 600 (uint (angle s) - 30))
    \<and> directionUp (snd (runProject s)) =
        (if directionUp s \<noteq> 0 then (if 2400 \<le> uint (angle s) + 30 then 0 else directionUp s)
         else (if uint (angle s) - 30 \<le> 600 then 1 else 0))
    \<and> snd (runProject s) =
        s\<lparr>Relay := True, angle := angle (snd (runProject s)),
          directionUp := directionUp (snd (runProject s)),
          servo := angle (snd (runProject s))\<rparr>"
proof -
  have r: "in_range (Relay_On s)" using assms(2,3) by (simp add: in_range_def)
  show ?thesis
  proof (cases "directionUp s = 0")
    case True
    then show ?thesis
      using assms r
      by (simp add: runProject_met sweep_down pulse_def Relay_On_def in_range_uint down_uint)
  next
    case False
    then show ?thesis
      using assms r
      by (simp add: runProject_met sweep_up pulse_def Relay_On_def in_range_uint up_uint)
  qed
qed

theorem runProject_all_met_witness:
  "conditions_met scenario \<and> 600 \<le> angle scenario \<and> angle scenario \<le> 2400
   \<and> fst (runProject scenario) = Ret_end
   \<and> Relay (snd (runProject scenario))
   \<and> uint (angle (snd (runProject scenario))) = 1470
   \<and> directionUp (snd (runProject scenario)) = 0"
proof -
  have a: "600 \<le> angle scenario" and b: "angle scenario \<le> 2400"
    by (simp_all add: scenario_def init_state_def)
  from runProject_all_met [OF scenario_met a b] show ?thesis
    using scenario_met a b by (simp add: scenario_def init_state_def)
qed

subsection \<open>Sequences of steps\<close>

lemma steps_snoc: "steps (is @ [i]) s = step i (steps is s)"
  by (simp add: steps_append)

lemma steps_down_run:
  assumes "directionUp s = 0" and "uint (angle s) \<le> 2400"
    and "600 < uint (angle s) - 30 * int (length is)"
    and "\<forall>i\<in>set is. conditions_met (read_sensors i s)"
  shows "uint (angle (steps is s)) = uint (angle s) - 30 * int (length is)
    \<and> directionUp (steps is s) = 0"
  using assms
proof (induction "is" arbitrary: s)
  case Nil
  then show ?case by simp
next
  case (Cons i "is")
  have r: "in_range s" using Cons.prems by (simp add: in_range_uint)
  have m: "conditions_met (read_sensors i s)" using Cons.prems by simp
  have lt: "\<not> uint (angle s) - 30 \<le> 600" using Cons.prems by simp
  have a: "angle (step i s) = angle s - 30" and d: "directionUp (step i s) = 0"
    using Cons.prems(1) lt by (simp_all add: step_met [OF m] sweep_down [OF r])
  have u: "uint (angle (step i s)) = uint (angle s) - 30"
    using r by (simp add: a down_uint in_range_uint)
  have ms: "\<forall>j\<in>set is. conditions_met (read_sensors j (step i s))"
    using Cons.prems(4) conditions_met_read_sensors [of "step i s" s] by simp
  have "uint (angle (steps is (step i s))) = uint (angle (step i s)) - 30 * int (length is)
    \<and> directionUp (steps is (step i s)) = 0"
    using Cons.prems u d ms by (intro Cons.IH) simp_all
  then show ?case by (simp add: u)
qed

lemma steps_up_to_top:
  assumes "directionUp s \<noteq> 0" and "600 \<le> uint (angle s)"
    and "uint (angle s) + 30 * int (length is) < 2400"
    and "\<forall>j\<in>set (is @ [i]). conditions_met (read_sensors j s)"
    and "2400 \<le> uint (angle s) + 30 * int (length is) + 30"
  shows "angle (steps (is @ [i]) s) = 2400 \<and> directionUp (steps (is @ [i]) s) = 0"
proof -
  let ?a = "steps is s"
  have "\<forall>j\<in>set is. conditions_met (read_sensors j s)" using assms(4) by simp
  from steps_up_run [OF assms(1,2,3) this]
  have u: "uint (angle ?a) = uint (angle s) + 30 * int (length is)"
    and d: "directionUp ?a \<noteq> 0" using assms(1) by simp_all
  have r: "in_range ?a" using u assms(2,3) by (simp add: in_range_uint)
  have "conditions_met (read_sensors i s)" using assms(4) by simp
  then have m: "conditions_met (read_sensors i ?a)"
    using conditions_met_read_sensors [of ?a s i] by simp
  show ?thesis
    using d u assms(5) by (simp add: steps_snoc step_met [OF m] sweep_up [OF r])
qed

lemma steps_down_to_bottom:
  assumes "directionUp s = 0" and "uint (angle s) \<le> 2400"
    and "600 < uint (angle s) - 30 * int (length is)"
    and "\<forall>j\<in>set (is @ [i]). conditions_met (read_sensors j s)"
    and "uint (angle s) - 30 * int (length is) - 30 \<le> 600"
  shows "angle (steps (is @ [i]) s) = 600 \<and> directionUp (steps (is @ [i]) s) = 1"
proof -
  let ?a = "steps is s"
  have "\<forall>j\<in>set is. conditions_met (read_sensors j s)" using assms(4) by simp
  from steps_down_run [OF assms(1,2,3) this]
  have u: "uint (angle ?a) = uint (angle s) - 30 * int (length is)"
    and d: "directionUp ?a = 0" by simp_all
  have r: "in_range ?a" using u assms(2,3) by (simp add: in_range_uint)
  have "conditions_met (read_sensors i s)" using assms(4) by simp
  then have m: "conditions_met (read_sensors i ?a)"
    using conditions_met_read_sensors [of ?a s i] by simp
  show ?thesis
    using d u assms(5) by (simp add: steps_snoc step_met [OF m] sweep_down [OF r])
qed

text \<open>
  C2 (as amended). Through every sequence of steps in which the five
  conditions hold, started with the pulse width in \<open>[600,2400]\<close>, the pulse
  width stays in \<open>[600,2400]\<close>. At each step the direction flips exactly when
  the stepped value reaches or passes the bound of the current direction (at
  least 2400 going up, at most 600 going down), which is exactly when the new
  pulse width is that bound.
\<close>

theorem sweep_stays_in_range:
  assumes "600 \<le> angle s" and "angle s \<le> 2400"
    and "\<forall>i\<in>set is. conditions_met (read_sensors i s)"
  shows "(\<forall>n\<le>length is. 600 \<le> angle (steps (take n is) s) \<and> angle (steps (take n is) s) \<le> 2400)
    \<and> (\<forall>n<length is.
          flipped (steps (take n is) s) (steps (take (Suc n) is) s) =
            (if directionUp (steps (take n is) s) \<noteq> 0
             then 2400 \<le> uint (angle (steps (take n is) s)) + 30
             else uint (angle (steps (take n is) s)) - 30 \<le> 600)
        \<and> flipped (steps (take n is) s) (steps (take (Suc n) is) s) =
            (if directionUp (steps (take n is) s) \<noteq> 0
             then angle (steps (take (Suc n) is) s) = 2400
             else angle (steps (take (Suc n) is) s) = 600))"
proof -
  have r0: "in_range s" using assms(1,2) by (simp add: in_range_def)
  have r: "in_range (steps (take n is) s)" for n
    using r0 by (rule steps_in_range)
  have 1: "\<forall>n\<le>length is. 600 \<le> angle (steps (take n is) s) \<and> angle (steps (take n is) s) \<le> 2400"
    using r by (simp add: in_range_def)
  have 2: "flipped (steps (take n is) s) (steps (take (Suc n) is) s) =
            (if directionUp (steps (take n is) s) \<noteq> 0
             then 2400 \<le> uint (angle (steps (take n is) s)) + 30
             else uint (angle (steps (take n is) s)) - 30 \<le> 600)
        \<and> flipped (steps (take n is) s) (steps (take (Suc n) is) s) =
            (if directionUp (steps (take n is) s) \<noteq> 0
             then angle (steps (take (Suc n) is) s) = 2400
             else angle (steps (take (Suc n) is) s) = 600)" if n: "n < length is" for n
  proof -
    let ?a = "steps (take n is) s"
    have "is ! n \<in> set is" using n by simp
    then have "conditions_met (read_sensors (is ! n) s)" using assms(3) by blast
    then have m: "conditions_met (read_sensors (is ! n) ?a)"
      using conditions_met_read_sensors [of ?a s "is ! n"] by simp
    have e: "steps (take (Suc n) is) s = step (is ! n) ?a"
      using n by (rule steps_take_Suc)
    have f: "flipped ?a (step (is ! n) ?a) =
        ((directionUp (sweep_advance ?a) = 0) \<noteq> (directionUp ?a = 0))"
      by (auto simp: flipped_def step_met [OF m])
    show ?thesis
      unfolding e f
      using flip_iff [OF r [of n]] flip_at_bound [OF r [of n]]
      by (simp add: step_met [OF m])
  qed
  from 1 2 show ?thesis by blast
qed

theorem sweep_stays_in_range_witness:
  "600 \<le> angle (scenario\<lparr>angle := 2370, directionUp := 1\<rparr>)
   \<and> angle (scenario\<lparr>angle := 2370, directionUp := 1\<rparr>) \<le> 2400
   \<and> conditions_met (read_sensors good_inputs (scenario\<lparr>angle := 2370, directionUp := 1\<rparr>))
   \<and> angle (steps [good_inputs] (scenario\<lparr>angle := 2370, directionUp := 1\<rparr>)) \<le> 2400
   \<and> flipped (scenario\<lparr>angle := 2370, directionUp := 1\<rparr>)
        (steps [good_inputs] (scenario\<lparr>angle := 2370, directionUp := 1\<rparr>))"
proof -
  let ?s = "scenario\<lparr>angle := 2370, directionUp := 1\<rparr>"
  have a: "600 \<le> angle ?s" and b: "angle ?s \<le> 2400"
    by (simp_all add: scenario_def init_state_def)
  have m: "conditions_met (read_sensors good_inputs ?s)"
    by (simp add: good_inputs_met temp_ok_def scenario_def init_state_def)
  then have ms: "\<forall>i\<in>set [good_inputs]. conditions_met (read_sensors i ?s)"
    by simp
  have u: "uint (angle ?s) = 2370" and d: "directionUp ?s \<noteq> 0"
    by (simp_all add: scenario_def init_state_def)
  note t = sweep_stays_in_range [OF a b ms]
  have 1: "angle (steps [good_inputs] ?s) \<le> 2400"
    using t [THEN conjunct1, rule_format, of 1] by simp
  have 2: "flipped ?s (steps [good_inputs] ?s)"
    using t [THEN conjunct2, rule_format, of 0] u d by simp
  from 1 2 a b m show ?thesis by simp
qed

text \<open>
  The claim as worded fails: from 2370 going up the stepped value is 2400, which
  does not exceed the bound, and the direction flips.
\<close>

theorem flip_without_exceeding:
  "in_range (scenario\<lparr>angle := 2370, directionUp := 1\<rparr>)
   \<and> conditions_met (read_sensors good_inputs (scenario\<lparr>angle := 2370, directionUp := 1\<rparr>))
   \<and> \<not> 2400 < uint (angle (scenario\<lparr>angle := 2370, directionUp := 1\<rparr>)) + 30
   \<and> flipped (scenario\<lparr>angle := 2370, directionUp := 1\<rparr>)
        (step good_inputs (scenario\<lparr>angle := 2370, directionUp := 1\<rparr>))"
proof -
  let ?s = "scenario\<lparr>angle := 2370, directionUp := 1\<rparr>"
  have r: "in_range ?s"
    by (simp add: in_range_def scenario_def init_state_def)
  have m: "conditions_met (read_sensors good_inputs ?s)"
    by (simp add: good_inputs_met temp_ok_def scenario_def init_state_def)
  have u: "uint (angle ?s) = 2370" and d: "directionUp ?s \<noteq> 0"
    by (simp_all add: scenario_def init_state_def)
  have "directionUp (step good_inputs ?s) = 0"
    using u d by (simp add: step_met [OF m] sweep_up [OF r])
  with r m u d show ?thesis by (simp add: flipped_def)
qed

text \<open>
  C6. From pulse width 1500 with the direction up, thirty steps in which the
  five conditions hold end at exactly 2400 with the direction down; after each
  of the first 29 steps the direction is still up and the width is
  \<open>1500 + 30 n\<close>, so the flip happens on the thirtieth call.
\<close>

theorem thirty_steps_reach_top:
  assumes "angle s = 1500" and "directionUp s \<noteq> 0" and "length is = 30"
    and "\<forall>i\<in>set is. conditions_met (read_sensors i s)"
  shows "angle (steps is s) = 2400 \<and> directionUp (steps is s) = 0
    \<and> (\<forall>n<30. directionUp (steps (take n is) s) \<noteq> 0
          \<and> uint (angle (steps (take n is) s)) = 1500 + 30 * int n)"
proof -
  have u: "uint (angle s) = 1500" using assms(1) by simp
  have pre: "directionUp (steps (take n is) s) = directionUp s
      \<and> uint (angle (steps (take n is) s)) = 1500 + 30 * int n" if "n < 30" for n
  proof -
    have l: "length (take n is) = n" using that assms(3) by simp
    have "\<forall>i\<in>set (take n is). conditions_met (read_sensors i s)"
      using assms(4) by (meson in_set_takeD)
    with steps_up_run [of s "take n is"] assms(2) u l that show ?thesis by simp
  qed
  let ?a = "steps (take 29 is) s"
  have a29: "directionUp ?a \<noteq> 0" "uint (angle ?a) = 2370"
    using pre [of 29] assms(2) by simp_all
  have r: "in_range ?a" using a29 by (simp add: in_range_uint)
  have "is ! 29 \<in> set is" using assms(3) by simp
  then have "conditions_met (read_sensors (is ! 29) s)" using assms(4) by blast
  then have m: "conditions_met (read_sensors (is ! 29) ?a)"
    using conditions_met_read_sensors [of ?a s "is ! 29"] by simp
  have "steps (take (Suc 29) is) s = step (is ! 29) ?a"
    using assms(3) by (intro steps_take_Suc) simp
  then have e: "steps is s = step (is ! 29) ?a" using assms(3) by simp
  have top: "angle (steps is s) = 2400 \<and> directionUp (steps is s) = 0"
    unfolding e using a29 by (simp add: step_met [OF m] sweep_up [OF r])
  from top pre assms(2) show ?thesis by simp
qed

theorem thirty_steps_reach_top_witness:
  "angle (scenario\<lparr>directionUp := 1\<rparr>) = 1500
   \<and> directionUp (scenario\<lparr>directionUp := 1\<rparr>) \<noteq> 0
   \<and> length (replicate 30 good_inputs) = 30
   \<and> conditions_met (read_sensors good_inputs (scenario\<lparr>directionUp := 1\<rparr>))
   \<and> angle (steps (replicate 30 good_inputs) (scenario\<lparr>directionUp := 1\<rparr>)) = 2400
   \<and> directionUp (steps (replicate 30 good_inputs) (scenario\<lparr>directionUp := 1\<rparr>)) = 0"
proof -
  let ?s = "scenario\<lparr>directionUp := 1\<rparr>"
  have a: "angle ?s = 1500" and d: "directionUp ?s \<noteq> 0"
    by (simp_all add: scenario_def init_state_def)
  have l: "length (replicate 30 good_inputs) = 30" by simp
  have m: "conditions_met (read_sensors good_inputs ?s)"
    by (simp add: good_inputs_met temp_ok_def scenario_def init_state_def)
  then have ms: "\<forall>i\<in>set (replicate 30 good_inputs). conditions_met (read_sensors i ?s)"
    by simp
  from thirty_steps_reach_top [OF a d l ms] a d l m show ?thesis by simp
qed

section \<open>The main loop\<close>

subsection \<open>One iteration\<close>

lemma select_screen_frame [simp]:
  "angle (select_screen b s) = angle s"
  "directionUp (select_screen b s) = directionUp s"
  "TEMP_THRESHOLD (select_screen b s) = TEMP_THRESHOLD s"
  by (simp_all add: select_screen_def Relay_Off_def)

lemma setup_menu_frame [simp]:
  "angle (setup_menu b s) = angle s"
  "directionUp (setup_menu b s) = directionUp s"
  "Relay (setup_menu b s) = Relay s"
  "runFlag (setup_menu b s) = runFlag s"
  by (simp_all add: setup_menu_def Let_def)

lemma menu_frame [simp]:
  "angle (menu b s) = angle s"
  "directionUp (menu b s) = directionUp s"
  by (simp_all add: menu_def Let_def)

lemma menu_runFlag:
  "runFlag (menu b s) = (if b = 1 \<or> b = 2 then False else if b = 3 then True else runFlag s)"
  by (simp add: menu_def Let_def select_screen_def Relay_Off_def)

lemma menu_Relay:
  "Relay (menu b s) = (if b = 1 \<or> b = 2 then False else Relay s)"
  by (simp add: menu_def Let_def select_screen_def Relay_Off_def)

lemma tick_leave:
  assumes "in_button e = 1 \<or> in_button e = 2"
  shows "\<not> Relay (tick e s) \<and> \<not> runFlag (tick e s)"
  using assms by (auto simp: tick_def Let_def menu_Relay menu_runFlag)

lemma tick_sweep:
  "angle (tick i s) = angle (if runFlag s then step i s else s)"
  "directionUp (tick i s) = directionUp (if runFlag s then step i s else s)"
  by (simp_all add: tick_def Let_def step_def)

lemma tick_idle:
  assumes "\<not> runFlag s"
  shows "angle (tick i s) = angle s" and "directionUp (tick i s) = directionUp s"
    and "Relay (tick i s) = (if in_button i = 1 \<or> in_button i = 2 then False else Relay s)"
    and "runFlag (tick i s) = (in_button i = 3)"
  using assms by (auto simp: tick_def Let_def menu_Relay menu_runFlag)

lemma main_loop_idle:
  assumes "\<not> runFlag s" and "\<forall>i\<in>set is. in_button i \<noteq> 3"
  shows "\<not> runFlag (main_loop is s) \<and> angle (main_loop is s) = angle s
    \<and> directionUp (main_loop is s) = directionUp s
    \<and> (Relay (main_loop is s) \<longrightarrow> Relay s)"
  using assms
proof (induction "is" arbitrary: s)
  case Nil
  then show ?case by simp
next
  case (Cons i "is")
  have n: "\<not> runFlag (tick i s)" using Cons.prems by (simp add: tick_idle)
  have "\<forall>j\<in>set is. in_button j \<noteq> 3" using Cons.prems by simp
  from Cons.IH [OF n this] show ?case
    using Cons.prems(1) by (auto simp: tick_idle split: if_splits)
qed

lemma tick_active_met:
  assumes "runFlag s" and "in_button k = 0" and "conditions_met (read_sensors k s)"
  shows "angle (tick k s) = angle (sweep_advance s)"
    and "directionUp (tick k s) = directionUp (sweep_advance s)"
  using assms by (simp_all add: tick_sweep step_met)

lemma sweep_advance_frame [simp]:
  "screen (sweep_advance s) = screen s"
  "runFlag (sweep_advance s) = runFlag s"
  by (simp_all add: sweep_advance_def Let_def)

lemma runProject_frame [simp]:
  "screen (snd (runProject s)) = screen s"
  "runFlag (snd (runProject s)) = runFlag s"
  by (cases "conditions_met s";
      simp add: runProject_met runProject_not_met Relay_Off_def Relay_On_def pulse_def)+

lemma tick_TEMP:
  "TEMP_THRESHOLD (tick i s) =
    (if in_button i = 17 \<and> screen s = 2
     then (if 30 <s TEMP_THRESHOLD s + 1 then 20 else TEMP_THRESHOLD s + 1)
     else TEMP_THRESHOLD s)"
  by (simp add: tick_def Let_def menu_def select_screen_def setup_menu_def Relay_Off_def)

lemma project_pressed_facts:
  "runFlag project_pressed" "uint (angle project_pressed) = 1500"
  "directionUp project_pressed = 0" "TEMP_THRESHOLD project_pressed = 27"
  by (simp_all add: project_pressed_def tick_idle tick_TEMP init_state_def good_inputs_def)

lemma good_inputs_threshold:
  "TEMP_THRESHOLD s = 27 \<Longrightarrow> conditions_met (read_sensors good_inputs s)"
  by (simp add: good_inputs_met temp_ok_def)

lemma step_not_met:
  assumes "\<not> conditions_met (read_sensors i s)"
  shows "angle (step i s) = angle s" and "directionUp (step i s) = directionUp s"
  using runProject_not_met [OF assms] by (simp_all add: step_def)

subsection \<open>The entry state\<close>

text \<open>
  C7 (as amended). When the main loop is entered the pulse width is 1500 and
  the direction flag is 0, and they stay so until \<open>runProject\<close> is first
  called: through the iterations before the Project button is pressed and
  through the iteration in which it is pressed. The first sweep step goes
  down: a sweep step from the entry state gives 1470 with the flag still 0,
  and so does the first iteration of the main loop in which the five
  conditions hold.
\<close>

theorem initial_sweep_state:
  assumes "\<forall>i\<in>set is. in_button i \<noteq> 3"
    and "in_button r = 3"
    and "in_button k = 0"
    and "conditions_met (read_sensors k (tick r (main_loop is init_state)))"
  shows "angle init_state = 1500 \<and> directionUp init_state = 0
    \<and> uint (angle (sweep_advance init_state)) = 1470
    \<and> directionUp (sweep_advance init_state) = 0
    \<and> (if conditions_met (read_sensors j init_state)
        then uint (angle (step j init_state)) = 1470
        else uint (angle (step j init_state)) = 1500)
    \<and> directionUp (step j init_state) = 0
    \<and> \<not> runFlag (main_loop is init_state)
    \<and> angle (main_loop is init_state) = 1500
    \<and> directionUp (main_loop is init_state) = 0
    \<and> runFlag (tick r (main_loop is init_state))
    \<and> angle (tick r (main_loop is init_state)) = 1500
    \<and> directionUp (tick r (main_loop is init_state)) = 0
    \<and> uint (angle (tick k (tick r (main_loop is init_state)))) = 1470
    \<and> directionUp (tick k (tick r (main_loop is init_state))) = 0"
proof -
  let ?s2 = "main_loop is init_state"
  let ?s3 = "tick r ?s2"
  have 0: "angle init_state = 1500" "directionUp init_state = 0" "\<not> runFlag init_state"
    by (simp_all add: init_state_def)
  have r0: "in_range init_state" by (simp add: in_range_def 0)
  have u0: "uint (angle init_state) = 1500" by (simp add: 0)
  have 1: "uint (angle (sweep_advance init_state)) = 1470"
    "directionUp (sweep_advance init_state) = 0"
    by (simp_all add: sweep_down [OF r0 0(2)] u0 0(2) down_uint)
  have 2: "(if conditions_met (read_sensors j init_state)
        then uint (angle (step j init_state)) = 1470
        else uint (angle (step j init_state)) = 1500)"
    "directionUp (step j init_state) = 0"
  proof -
    show "(if conditions_met (read_sensors j init_state)
        then uint (angle (step j init_state)) = 1470
        else uint (angle (step j init_state)) = 1500)"
    proof (cases "conditions_met (read_sensors j init_state)")
      case True
      then show ?thesis by (simp add: step_met(1) [OF True] 1(1))
    next
      case False
      then show ?thesis by (simp add: step_not_met(1) [OF False] u0)
    qed
    show "directionUp (step j init_state) = 0"
    proof (cases "conditions_met (read_sensors j init_state)")
      case True
      then show ?thesis by (simp add: step_met(2) [OF True] 1(2))
    next
      case False
      then show ?thesis by (simp add: step_not_met(2) [OF False] 0(2))
    qed
  qed
  have 3: "\<not> runFlag ?s2" "angle ?s2 = 1500" "directionUp ?s2 = 0"
    using main_loop_idle [OF 0(3) assms(1)] 0 by simp_all
  have 4: "runFlag ?s3" "angle ?s3 = 1500" "directionUp ?s3 = 0"
    using 3 assms(2) by (simp_all add: tick_idle)
  have 5: "angle (tick k ?s3) = angle (sweep_advance ?s3)"
    "directionUp (tick k ?s3) = directionUp (sweep_advance ?s3)"
    using tick_active_met [OF 4(1) assms(3,4)] by simp_all
  have r3: "in_range ?s3" by (simp add: in_range_def 4)
  have 6: "uint (angle (sweep_advance ?s3)) = 1470" "directionUp (sweep_advance ?s3) = 0"
    by (simp_all add: sweep_down [OF r3 4(3)] 4 down_uint)
  from 0 1 2 3 4 5 6 show ?thesis by simp
qed

theorem initial_sweep_state_witness:
  "in_button (good_inputs\<lparr>in_button := 2\<rparr>) \<noteq> 3
   \<and> in_button (good_inputs\<lparr>in_button := 3\<rparr>) = 3
   \<and> in_button good_inputs = 0
   \<and> conditions_met (read_sensors good_inputs (tick (good_inputs\<lparr>in_button := 3\<rparr>)
        (main_loop [good_inputs\<lparr>in_button := 2\<rparr>] init_state)))
   \<and> angle (main_loop [good_inputs\<lparr>in_button := 2\<rparr>] init_state) = 1500
   \<and> uint (angle (tick good_inputs (tick (good_inputs\<lparr>in_button := 3\<rparr>)
        (main_loop [good_inputs\<lparr>in_button := 2\<rparr>] init_state)))) = 1470
   \<and> directionUp (tick good_inputs (tick (good_inputs\<lparr>in_button := 3\<rparr>)
        (main_loop [good_inputs\<lparr>in_button := 2\<rparr>] init_state))) = 0"
proof -
  let ?i = "good_inputs\<lparr>in_button := 2\<rparr>"
  let ?r = "good_inputs\<lparr>in_button := 3\<rparr>"
  have h1: "\<forall>i\<in>set [?i]. in_button i \<noteq> 3" by simp
  have h2: "in_button ?r = 3" by simp
  have h3: "in_button good_inputs = 0" by (simp add: good_inputs_def)
  have t: "TEMP_THRESHOLD (tick ?r (main_loop [?i] init_state)) = 27"
    by (simp add: tick_TEMP init_state_def)
  have h4: "conditions_met (read_sensors good_inputs (tick ?r (main_loop [?i] init_state)))"
    using t by (rule good_inputs_threshold)
  from initial_sweep_state [OF h1 h2 h3 h4] h2 h3 h4 show ?thesis by simp
qed

text \<open>The claim as worded fails: the direction flag is not set in the entry state.\<close>

theorem initial_direction_is_down:
  "\<not> directionUp init_state \<noteq> 0"
  by (simp add: init_state_def)

subsection \<open>Leaving and resuming Active mode\<close>

text \<open>
  C8. An iteration in which the Check or the Setup button is pressed ends with
  the relay off and the run flag cleared, whatever \<open>runProject\<close> did earlier
  in that iteration. Through the following iterations, as long as the Project
  button is not pressed, the run flag stays cleared, the relay stays off, and
  the pulse width and the direction stay as that iteration left them. The
  iteration in which Project is pressed sets the run flag and leaves them
  unchanged too, and the next iteration in which the five conditions hold
  advances the sweep from the saved width and direction.
\<close>

theorem leaving_active_mode:
  assumes "in_button e = 1 \<or> in_button e = 2"
    and "\<forall>i\<in>set is. in_button i \<noteq> 3"
    and "in_button r = 3"
    and "in_button k = 0"
    and "conditions_met (read_sensors k (tick r (main_loop is (tick e s))))"
  shows "\<not> Relay (tick e s) \<and> \<not> runFlag (tick e s)
    \<and> angle (tick e s) = angle (if runFlag s then step e s else s)
    \<and> directionUp (tick e s) = directionUp (if runFlag s then step e s else s)
    \<and> \<not> Relay (main_loop is (tick e s)) \<and> \<not> runFlag (main_loop is (tick e s))
    \<and> angle (main_loop is (tick e s)) = angle (tick e s)
    \<and> directionUp (main_loop is (tick e s)) = directionUp (tick e s)
    \<and> runFlag (tick r (main_loop is (tick e s)))
    \<and> angle (tick r (main_loop is (tick e s))) = angle (tick e s)
    \<and> directionUp (tick r (main_loop is (tick e s))) = directionUp (tick e s)
    \<and> angle (tick k (tick r (main_loop is (tick e s)))) = angle (sweep_advance (tick e s))
    \<and> directionUp (tick k (tick r (main_loop is (tick e s)))) =
        directionUp (sweep_advance (tick e s))"
proof -
  let ?s1 = "tick e s"
  let ?s2 = "main_loop is ?s1"
  let ?s3 = "tick r ?s2"
  have 1: "\<not> Relay ?s1" "\<not> runFlag ?s1" using tick_leave [OF assms(1)] by simp_all
  have 2: "\<not> runFlag ?s2" "angle ?s2 = angle ?s1" "directionUp ?s2 = directionUp ?s1" "\<not> Relay ?s2"
    using main_loop_idle [OF 1(2) assms(2)] 1(1) by simp_all
  have 3: "runFlag ?s3" "angle ?s3 = angle ?s1" "directionUp ?s3 = directionUp ?s1"
    using 2 assms(3) by (simp_all add: tick_idle)
  have 4: "angle (tick k ?s3) = angle (sweep_advance ?s3)"
    "directionUp (tick k ?s3) = directionUp (sweep_advance ?s3)"
    using tick_active_met [OF 3(1) assms(4,5)] by simp_all
  have 5: "angle (sweep_advance ?s3) = angle (sweep_advance ?s1)"
    "directionUp (sweep_advance ?s3) = directionUp (sweep_advance ?s1)"
    using 3(2,3) by (simp_all add: sweep_advance_def Let_def)
  from 1 2 3 4 5 show ?thesis by (simp add: tick_sweep)
qed

theorem leaving_active_mode_witness:
  "(in_button (good_inputs\<lparr>in_button := 1\<rparr>) = 1 \<or> in_button (good_inputs\<lparr>in_button := 1\<rparr>) = 2)
   \<and> in_button (good_inputs\<lparr>in_button := 2\<rparr>) \<noteq> 3
   \<and> in_button (good_inputs\<lparr>in_button := 3\<rparr>) = 3
   \<and> in_button good_inputs = 0
   \<and> \<not> Relay (tick (good_inputs\<lparr>in_button := 1\<rparr>) project_pressed)
   \<and> uint (angle (tick (good_inputs\<lparr>in_button := 1\<rparr>) project_pressed)) = 1470
   \<and> uint (angle (tick good_inputs (tick (good_inputs\<lparr>in_button := 3\<rparr>)
        (main_loop [good_inputs\<lparr>in_button := 2\<rparr>]
          (tick (good_inputs\<lparr>in_button := 1\<rparr>) project_pressed))))) = 1440"
proof -
  let ?e = "good_inputs\<lparr>in_button := 1\<rparr>"
  let ?i = "good_inputs\<lparr>in_button := 2\<rparr>"
  let ?r = "good_inputs\<lparr>in_button := 3\<rparr>"
  let ?s1 = "tick ?e project_pressed"
  have h1: "in_button ?e = 1 \<or> in_button ?e = 2" by simp
  have h2: "\<forall>i\<in>set [?i]. in_button i \<noteq> 3" by simp
  have h3: "in_button ?r = 3" by simp
  have h4: "in_button good_inputs = 0" by (simp add: good_inputs_def)
  have t: "TEMP_THRESHOLD (tick ?r (main_loop [?i] ?s1)) = 27"
    by (simp add: tick_TEMP project_pressed_facts)
  have h5: "conditions_met (read_sensors good_inputs (tick ?r (main_loop [?i] ?s1)))"
    using t by (rule good_inputs_threshold)
  have me: "conditions_met (read_sensors ?e project_pressed)"
    by (simp add: conditions_met_def ok_defs read_sensors_def good_inputs_def
        project_pressed_facts)
  have r0: "in_range project_pressed"
    by (simp add: in_range_uint project_pressed_facts)
  have a1: "angle ?s1 = angle project_pressed - 30" and d1: "directionUp ?s1 = 0"
    by (simp_all add: tick_sweep project_pressed_facts step_met [OF me] sweep_down [OF r0])
  have u1: "uint (angle ?s1) = 1470"
    by (simp add: a1 down_uint project_pressed_facts)
  have r1: "in_range ?s1" by (simp add: in_range_uint u1)
  have u2: "uint (angle (sweep_advance ?s1)) = 1440"
    by (simp add: sweep_down [OF r1 d1] u1 down_uint)
  from leaving_active_mode [OF h1 h2 h3 h4 h5] h1 h3 h4 u1 u2
  show ?thesis by simp
qed

subsection \<open>The temperature threshold\<close>

lemma sint_succ:
  assumes "20 \<le> sint (t::s16)" and "sint t \<le> 30"
  shows "sint (t + 1) = sint t + 1"
  using assms by (simp add: sint_word_ariths signed_take_bit_int_eq_self)

lemma threshold_step:
  assumes "20 \<le> sint (TEMP_THRESHOLD s)" and "sint (TEMP_THRESHOLD s) \<le> 30"
  shows "sint (TEMP_THRESHOLD (tick i s)) =
    (if in_button i = 17 \<and> screen s = 2
     then (if sint (TEMP_THRESHOLD s) = 30 then 20 else sint (TEMP_THRESHOLD s) + 1)
     else sint (TEMP_THRESHOLD s))"
  using assms by (simp add: tick_TEMP word_sless_alt sint_succ)

lemma threshold_range_tick:
  assumes "20 \<le> sint (TEMP_THRESHOLD s)" and "sint (TEMP_THRESHOLD s) \<le> 30"
  shows "20 \<le> sint (TEMP_THRESHOLD (tick i s)) \<and> sint (TEMP_THRESHOLD (tick i s)) \<le> 30"
  using assms by (simp add: threshold_step)

lemma threshold_range_main_loop:
  assumes "20 \<le> sint (TEMP_THRESHOLD s)" and "sint (TEMP_THRESHOLD s) \<le> 30"
  shows "20 \<le> sint (TEMP_THRESHOLD (main_loop is s)) \<and> sint (TEMP_THRESHOLD (main_loop is s)) \<le> 30"
  using assms
proof (induction "is" arbitrary: s)
  case Nil
  then show ?case by simp
next
  case (Cons i "is")
  from threshold_range_tick [OF Cons.prems] show ?case
    by (simp add: Cons.IH)
qed

text \<open>
  C9 (as amended). Through every run of the main loop the temperature threshold
  stays between 20 and 30. An iteration changes it only when button 17 is
  pressed on the Setup screen, and then it increments it, from 30 back to 20.
\<close>

theorem threshold_cycles_upward:
  "20 \<le> sint (TEMP_THRESHOLD (main_loop is init_state))
   \<and> sint (TEMP_THRESHOLD (main_loop is init_state)) \<le> 30
   \<and> (20 \<le> sint (TEMP_THRESHOLD s) \<and> sint (TEMP_THRESHOLD s) \<le> 30 \<longrightarrow>
        sint (TEMP_THRESHOLD (tick i s)) =
          (if in_button i = 17 \<and> screen s = 2
           then (if sint (TEMP_THRESHOLD s) = 30 then 20 else sint (TEMP_THRESHOLD s) + 1)
           else sint (TEMP_THRESHOLD s)))"
proof -
  have "20 \<le> sint (TEMP_THRESHOLD init_state)" "sint (TEMP_THRESHOLD init_state) \<le> 30"
    by (simp_all add: init_state_def)
  from threshold_range_main_loop [OF this] threshold_step [of s i]
  show ?thesis by blast
qed

theorem threshold_cycles_upward_witness:
  "20 \<le> sint (TEMP_THRESHOLD (init_state\<lparr>screen := 2, TEMP_THRESHOLD := 30\<rparr>))
   \<and> sint (TEMP_THRESHOLD (init_state\<lparr>screen := 2, TEMP_THRESHOLD := 30\<rparr>)) \<le> 30
   \<and> sint (TEMP_THRESHOLD
        (tick (good_inputs\<lparr>in_button := 17\<rparr>) (init_state\<lparr>screen := 2, TEMP_THRESHOLD := 30\<rparr>))) = 20
   \<and> sint (TEMP_THRESHOLD (main_loop [good_inputs\<lparr>in_button := 2\<rparr>,
        good_inputs\<lparr>in_button := 17\<rparr>] init_state)) \<le> 30"
  using threshold_cycles_upward [of "[good_inputs\<lparr>in_button := 2\<rparr>,
        good_inputs\<lparr>in_button := 17\<rparr>]" "init_state\<lparr>screen := 2, TEMP_THRESHOLD := 30\<rparr>"
      "good_inputs\<lparr>in_button := 17\<rparr>"]
  by (simp add: init_state_def good_inputs_def)

text \<open>
  The claim as worded fails: no iteration of the main loop takes the threshold
  from 20 to 30, so there is no decrement that wraps.
\<close>

theorem no_decrement_of_threshold:
  "\<not> (\<exists>i s. TEMP_THRESHOLD s = 20 \<and> TEMP_THRESHOLD (tick i s) = 30)"
  by (auto simp: tick_TEMP)

subsection \<open>Reachable pulse widths\<close>

lemma sweep_inv_in_range: "sweep_inv s \<Longrightarrow> in_range s"
  by (simp add: sweep_inv_def in_range_uint)

lemma sweep_inv_cong:
  "angle s' = angle s \<Longrightarrow> directionUp s' = directionUp s \<Longrightarrow> sweep_inv s' = sweep_inv s"
  by (simp add: sweep_inv_def)

lemma grid_below_top: "(x::int) mod 30 = 0 \<Longrightarrow> x < 2400 \<Longrightarrow> x + 30 \<le> 2400"
  by presburger

lemma grid_above_bottom: "(x::int) mod 30 = 0 \<Longrightarrow> 600 < x \<Longrightarrow> 600 \<le> x - 30"
  by presburger

lemma sweep_inv_advance:
  assumes "sweep_inv s"
  shows "sweep_inv (sweep_advance s)"
proof (cases "directionUp s = 0")
  case True
  with assms have "600 \<le> uint (angle s) - 30"
    by (simp add: sweep_inv_def grid_above_bottom)
  with assms True show ?thesis
    by (auto simp: sweep_down [OF sweep_inv_in_range [OF assms]] sweep_inv_def down_uint
        mod_diff_eq [symmetric])
next
  case False
  with assms have "uint (angle s) + 30 \<le> 2400"
    by (simp add: sweep_inv_def grid_below_top)
  with assms False show ?thesis
    by (auto simp: sweep_up [OF sweep_inv_in_range [OF assms]] sweep_inv_def up_uint)
qed

lemma sweep_inv_clamp_idle:
  assumes "sweep_inv s"
  shows "clamp_idle s"
proof (cases "directionUp s = 0")
  case True
  with assms have "600 \<le> uint (angle s) - 30"
    by (simp add: sweep_inv_def grid_above_bottom)
  with assms True show ?thesis
    by (auto simp: clamp_idle_def sweep_down [OF sweep_inv_in_range [OF assms]] sweep_inv_def
        down_uint)
next
  case False
  with assms have "uint (angle s) + 30 \<le> 2400"
    by (simp add: sweep_inv_def grid_below_top)
  with assms False show ?thesis
    by (auto simp: clamp_idle_def sweep_up [OF sweep_inv_in_range [OF assms]] sweep_inv_def
        up_uint)
qed

lemma sweep_inv_on_grid: "sweep_inv s \<Longrightarrow> on_grid s"
  by (simp add: sweep_inv_def on_grid_def)

lemma sweep_inv_step: "sweep_inv s \<Longrightarrow> sweep_inv (step i s)"
proof (cases "conditions_met (read_sensors i s)")
  case True
  assume "sweep_inv s"
  then have "sweep_inv (sweep_advance s)" by (rule sweep_inv_advance)
  then show ?thesis
    using sweep_inv_cong [of "step i s" "sweep_advance s"] by (simp add: step_met [OF True])
next
  case False
  assume "sweep_inv s"
  then show ?thesis
    using sweep_inv_cong [of "step i s" s] by (simp add: step_not_met [OF False])
qed

lemma sweep_inv_tick: "sweep_inv s \<Longrightarrow> sweep_inv (tick i s)"
  using sweep_inv_cong [of "tick i s" "if runFlag s then step i s else s"]
  by (simp add: tick_sweep sweep_inv_step)

lemma sweep_inv_steps: "sweep_inv s \<Longrightarrow> sweep_inv (steps is s)"
  by (induction "is" arbitrary: s) (simp_all add: sweep_inv_step)

lemma sweep_inv_main_loop: "sweep_inv s \<Longrightarrow> sweep_inv (main_loop is s)"
  by (induction "is" arbitrary: s) (simp_all add: sweep_inv_tick)

lemma sweep_inv_init: "sweep_inv init_state"
  by (simp add: sweep_inv_def init_state_def)

lemma step_runFlag [simp]: "runFlag (step i s) = runFlag s"
  by (simp add: step_def)

lemma tick_active:
  "runFlag s \<Longrightarrow> in_button i = 0 \<Longrightarrow> tick i s = step i s"
  by (simp add: tick_def Let_def menu_def step_def)

lemma main_loop_active:
  "runFlag s \<Longrightarrow> \<forall>i\<in>set is. in_button i = 0 \<Longrightarrow> main_loop is s = steps is s"
  by (induction "is" arbitrary: s) (simp_all add: tick_active)

lemma replicate_snoc: "replicate (Suc n) x = replicate n x @ [x]"
  by (simp add: replicate_append_same)

lemma bottom_reached:
  "angle (steps (replicate 30 good_inputs) project_pressed) = 600
   \<and> directionUp (steps (replicate 30 good_inputs) project_pressed) = 1"
proof -
  have m: "\<forall>j\<in>set (replicate 29 good_inputs @ [good_inputs]).
      conditions_met (read_sensors j project_pressed)"
    by (simp add: good_inputs_threshold project_pressed_facts)
  have "angle (steps (replicate 29 good_inputs @ [good_inputs]) project_pressed) = 600
    \<and> directionUp (steps (replicate 29 good_inputs @ [good_inputs]) project_pressed) = 1"
    by (rule steps_down_to_bottom [OF _ _ _ m]) (simp_all add: project_pressed_facts)
  moreover have "replicate 30 good_inputs = replicate 29 good_inputs @ [good_inputs]"
    using replicate_snoc [of 29 good_inputs] by simp
  ultimately show ?thesis by simp
qed

lemma top_reached:
  "angle (steps (replicate 90 good_inputs) project_pressed) = 2400
   \<and> directionUp (steps (replicate 90 good_inputs) project_pressed) = 0"
proof -
  let ?b = "steps (replicate 30 good_inputs) project_pressed"
  have t: "TEMP_THRESHOLD ?b = 27" by (simp add: project_pressed_facts)
  have m: "\<forall>j\<in>set (replicate 59 good_inputs @ [good_inputs]). conditions_met (read_sensors j ?b)"
    by (simp add: good_inputs_threshold project_pressed_facts)
  have u: "uint (angle ?b) = 600" and d: "directionUp ?b \<noteq> 0"
    using bottom_reached by simp_all
  have "angle (steps (replicate 59 good_inputs @ [good_inputs]) ?b) = 2400
    \<and> directionUp (steps (replicate 59 good_inputs @ [good_inputs]) ?b) = 0"
    by (rule steps_up_to_top [OF d _ _ m]) (simp_all add: u)
  moreover have "replicate 60 good_inputs = replicate 59 good_inputs @ [good_inputs]"
    using replicate_snoc [of 59 good_inputs] by simp
  moreover have "replicate 90 good_inputs = replicate 30 good_inputs @ replicate 60 good_inputs"
    using replicate_add [of 30 60 good_inputs] by simp
  ultimately show ?thesis by (simp add: steps_append)
qed

lemma main_loop_project:
  "main_loop (good_inputs\<lparr>in_button := 3\<rparr> # replicate n good_inputs) init_state =
    steps (replicate n good_inputs) project_pressed"
proof -
  have "\<forall>i\<in>set (replicate n good_inputs). in_button i = 0"
    by (simp add: good_inputs_def)
  from main_loop_active [OF project_pressed_facts(1) this] show ?thesis
    by (simp add: project_pressed_def)
qed

text \<open>
  C10. From the entry state, every state reached by iterations of the main loop
  or by a sequence of steps has a pulse width that is a multiple of 30 in
  \<open>[600,2400]\<close>, and a sweep step from it leaves the plain stepped value: the
  bounds are met exactly and clamping changes nothing. Both bounds are reached:
  some run of the main loop ends with pulse width 600 and some with 2400.
\<close>

theorem sweep_on_grid:
  "on_grid (main_loop is init_state) \<and> clamp_idle (main_loop is init_state)
   \<and> on_grid (steps js init_state) \<and> clamp_idle (steps js init_state)
   \<and> (\<exists>ks. angle (main_loop ks init_state) = 600)
   \<and> (\<exists>ks. angle (main_loop ks init_state) = 2400)"
proof -
  have a: "sweep_inv (main_loop is init_state)"
    using sweep_inv_init by (rule sweep_inv_main_loop)
  have b: "sweep_inv (steps js init_state)"
    using sweep_inv_init by (rule sweep_inv_steps)
  have c: "\<exists>ks. angle (main_loop ks init_state) = 600"
    using bottom_reached main_loop_project [of 30] by metis
  have d: "\<exists>ks. angle (main_loop ks init_state) = 2400"
    using top_reached main_loop_project [of 90] by metis
  from a b c d show ?thesis
    by (simp add: sweep_inv_on_grid sweep_inv_clamp_idle)
qed


end
